theory Spec2Isabelle
  imports Main "HOL-Library.Char_ord" "HOL-Library.List_Lexorder" "HOL-Library.Extended_Nat"
    "HOL-Library.Multiset"
begin

section \<open>Data model of the sortable table\<close>

text \<open>
  The TypeScript types of the component. A string is the list of its code units; the
  relational operators of the language compare two strings code unit by code unit,
  which is the lexicographic order on \<^typ>\<open>char list\<close>.

  \<^verbatim>\<open>type SortDirection = 'asc' | 'desc';\<close>
  A column object built without the field has \<^verbatim>\<open>sortDirection === undefined\<close>,
  which \<^verbatim>\<open>getInversedSortDirection\<close> tests for: the field is optional in the model.
\<close>

datatype SortDirection = Asc | Desc

record Column =
  id_col :: string
  label :: string
  sortable :: bool
  sortDirection :: "SortDirection option"

record Cell =
  cell_value :: string
  cellRenderer :: "(string \<Rightarrow> string) option"

type_synonym Row = "string \<rightharpoonup> Cell"

text \<open>
  Everything the component throws: one constructor for each \<^verbatim>\<open>Error\<close> message of the
  source (\<open>DataIdNotFound\<close> with the column id of its message), and \<open>TypeError\<close> for what
  reading \<^verbatim>\<open>.value\<close> of a missing cell raises.
\<close>

datatype error =
    TableElementNotFound
  | DataIdNotFound string
  | SortTargetNotFound
  | TypeError

section \<open>The comparison policy\<close>

text \<open>
  \<^verbatim>\<open>canCastToNumber\<close>: the pattern \<^verbatim>\<open>/^[0-9,]+$/\<close>, one or more characters, each a
  digit or a comma.
\<close>

definition canCastToNumber :: "string \<Rightarrow> bool" where
  "canCastToNumber str \<longleftrightarrow> str \<noteq> [] \<and> list_all (\<lambda>c. c \<in> set ''0123456789,'') str"

text \<open>\<^verbatim>\<open>removeCommas\<close>: \<^verbatim>\<open>str.replace(/,/g, '')\<close>.\<close>

definition removeCommas :: "string \<Rightarrow> string" where
  "removeCommas str = filter (\<lambda>c. c \<noteq> CHR '','') str"

text \<open>
  \<^verbatim>\<open>Number(s)\<close> on the strings the comparison gives it, which hold digits only: the
  decimal value of the digits (0 for the empty string), rounded to the nearest
  double-precision value, ties to even. Every such value is a natural number or
  \<open>+Infinity\<close>, so the result type is \<^typ>\<open>enat\<close>. Values below \<open>2 ^ 53\<close> are exact.
\<close>

definition digit_value :: "char \<Rightarrow> nat" where
  "digit_value c = of_char c - 48"

definition decimal_value :: "string \<Rightarrow> nat" where
  "decimal_value s = foldl (\<lambda>acc c. 10 * acc + digit_value c) 0 s"

fun bit_length :: "nat \<Rightarrow> nat" where
  "bit_length n = (if n = 0 then 0 else Suc (bit_length (n div 2)))"

definition round_to_double :: "nat \<Rightarrow> enat" where
  "round_to_double v =
     (if v < 2 ^ 53 then enat v
      else let e = bit_length v - 53;
               q = v div 2 ^ e;
               r = v mod 2 ^ e;
               half = 2 ^ (e - 1);
               m = (if half < r \<or> (r = half \<and> odd q) then q + 1 else q) * 2 ^ e
           in if 2 ^ 1024 \<le> m then \<infinity> else enat m)"

definition Number :: "string \<Rightarrow> enat" where
  "Number s = round_to_double (decimal_value s)"

text \<open>
  The three-way result of the comparison callback of \<^verbatim>\<open>_sort\<close>, from the two cell
  values: both values are taken as numbers when both match the pattern, and as
  strings otherwise.
\<close>

definition three_way :: "int \<Rightarrow> 'a::linorder \<Rightarrow> 'a \<Rightarrow> int" where
  "three_way sign a b = (if a < b then sign * - 1 else if b < a then sign else 0)"

definition compare_values :: "int \<Rightarrow> string \<Rightarrow> string \<Rightarrow> int" where
  "compare_values sign valA valB =
     (if canCastToNumber valA \<and> canCastToNumber valB
      then three_way sign (Number (removeCommas valA)) (Number (removeCommas valB))
      else three_way sign valA valB)"

text \<open>
  The callback itself: \<^verbatim>\<open>a[columnId].value\<close> raises a TypeError when the row has no
  cell under \<open>columnId\<close>, first for \<open>a\<close>, then for \<open>b\<close>.
\<close>

definition comparator :: "string \<Rightarrow> int \<Rightarrow> Row \<Rightarrow> Row \<Rightarrow> error + int" where
  "comparator columnId sign a b =
     (case a columnId of
        None \<Rightarrow> Inl TypeError
      | Some cellA \<Rightarrow>
          (case b columnId of
             None \<Rightarrow> Inl TypeError
           | Some cellB \<Rightarrow> Inr (compare_values sign (cell_value cellA) (cell_value cellB))))"

section \<open>Sorting an array\<close>

text \<open>
  \<^verbatim>\<open>Array.prototype.sort\<close> belongs to the language, not to the component. The language
  requires the result to be a stable sort whenever the callback is a consistent
  comparison, and leaves the order to the engine otherwise. The model is the stable
  insertion sort: each element is inserted in front of the already sorted rest, after
  every element the callback puts strictly before it. An exception of the callback
  ends the sort and leaves the array as it was.
\<close>

fun insort_cmp :: "('a \<Rightarrow> 'a \<Rightarrow> error + int) \<Rightarrow> 'a \<Rightarrow> 'a list \<Rightarrow> error + 'a list" where
  "insort_cmp cmp x [] = Inr [x]"
| "insort_cmp cmp x (y # ys) =
     (case cmp x y of
        Inl e \<Rightarrow> Inl e
      | Inr v \<Rightarrow>
          if v \<le> 0 then Inr (x # y # ys)
          else (case insort_cmp cmp x ys of
                  Inl e \<Rightarrow> Inl e
                | Inr zs \<Rightarrow> Inr (y # zs)))"

fun array_sort :: "('a \<Rightarrow> 'a \<Rightarrow> error + int) \<Rightarrow> 'a list \<Rightarrow> error + 'a list" where
  "array_sort cmp [] = Inr []"
| "array_sort cmp (x # xs) =
     (case array_sort cmp xs of
        Inl e \<Rightarrow> Inl e
      | Inr ys \<Rightarrow> insort_cmp cmp x ys)"

text \<open>
  \<^verbatim>\<open>_sort(columnId, direction)\<close> sorts \<^verbatim>\<open>this.originalData\<close> in place and returns that
  array. The model takes the array as an argument and returns the sorted array; the
  caller stores it back.
\<close>

definition sort_internal :: "string \<Rightarrow> SortDirection \<Rightarrow> Row list \<Rightarrow> error + Row list" where
  "sort_internal columnId direction data =
     (let sign = (if direction = Asc then 1 else - 1)
      in array_sort (comparator columnId sign) data)"

section \<open>The table element\<close>

text \<open>
  What the component reads and writes of the document: the children of the table
  element, each a \<^verbatim>\<open>thead\<close> holding one row of header cells or a \<^verbatim>\<open>tbody\<close> holding
  rows of data cells. A header cell carries its \<^verbatim>\<open>id\<close>, its text, the \<^verbatim>\<open>sortable\<close>
  and \<^verbatim>\<open>data-id\<close> attributes, its class list and the number of click listeners
  installed on it. A data cell holds what was assigned to \<^verbatim>\<open>innerHTML\<close> or to
  \<^verbatim>\<open>innerText\<close>; markup written by a renderer is not parsed.
\<close>

record Th =
  th_id :: string
  innerText :: string
  sortable_attr :: bool
  data_id :: string
  classList :: "string list"
  listeners :: nat

datatype Td = TdHTML string | TdText string

datatype Node = Thead "Th list" | Tbody "Td list list"

type_synonym Element = "Node list"

fun find_index_opt :: "('a \<Rightarrow> bool) \<Rightarrow> 'a list \<Rightarrow> nat option" where
  "find_index_opt P [] = None"
| "find_index_opt P (x # xs) = (if P x then Some 0 else map_option Suc (find_index_opt P xs))"

text \<open>The first header cell, in document order, that satisfies \<open>P\<close>: child and cell index.\<close>

fun find_th :: "(Th \<Rightarrow> bool) \<Rightarrow> Element \<Rightarrow> (nat \<times> nat) option" where
  "find_th P [] = None"
| "find_th P (Thead ths # ns) =
     (case find_index_opt P ths of
        Some j \<Rightarrow> Some (0, j)
      | None \<Rightarrow> map_option (\<lambda>(i, j). (Suc i, j)) (find_th P ns))"
| "find_th P (Tbody trs # ns) = map_option (\<lambda>(i, j). (Suc i, j)) (find_th P ns)"

fun map_th :: "(Th \<Rightarrow> Th) \<Rightarrow> Node \<Rightarrow> Node" where
  "map_th f (Thead ths) = Thead (map f ths)"
| "map_th f (Tbody trs) = Tbody trs"

fun update_node :: "nat \<Rightarrow> (Th \<Rightarrow> Th) \<Rightarrow> Node \<Rightarrow> Node" where
  "update_node j f (Thead ths) = Thead (if j < length ths then ths[j := f (ths ! j)] else ths)"
| "update_node j f (Tbody trs) = Tbody trs"

definition update_th :: "nat \<times> nat \<Rightarrow> (Th \<Rightarrow> Th) \<Rightarrow> Element \<Rightarrow> Element" where
  "update_th pos f el =
     (case pos of (i, j) \<Rightarrow> if i < length el then el[i := update_node j f (el ! i)] else el)"

text \<open>
  \<^verbatim>\<open>querySelector(`[data-id="${columnId}"]`)\<close>: the first element whose \<^verbatim>\<open>data-id\<close> is
  \<open>columnId\<close>, for the column ids that the spliced selector denotes literally (no
  double quote, backslash or line break in the id).
\<close>

definition querySelector_data_id :: "string \<Rightarrow> Element \<Rightarrow> (nat \<times> nat) option" where
  "querySelector_data_id columnId el = find_th (\<lambda>th. data_id th = columnId) el"

text \<open>
  \<^verbatim>\<open>document.getElementById\<close>, for a document in which only the header cells of this
  table carry ids: the empty id matches nothing.
\<close>

definition getElementById :: "string \<Rightarrow> Element \<Rightarrow> (nat \<times> nat) option" where
  "getElementById i el = (if i = [] then None else find_th (\<lambda>th. th_id th = i) el)"

definition classList_add :: "string \<Rightarrow> string list \<Rightarrow> string list" where
  "classList_add c cs = (if c \<in> set cs then cs else cs @ [c])"

definition classList_remove :: "string \<Rightarrow> string list \<Rightarrow> string list" where
  "classList_remove c cs = filter (\<lambda>d. d \<noteq> c) cs"

section \<open>The component\<close>

record SortableTable =
  tableElement :: Element
  header :: "Column list"
  columnIds :: "string list"
  originalData :: "Row list"
  displayData :: "Row list"
  selectedColumnId :: string

text \<open>
  The constructor; its argument is what \<^verbatim>\<open>document.querySelector(selector)\<close> found.
\<close>

definition new_SortableTable :: "Element option \<Rightarrow> error + SortableTable" where
  "new_SortableTable found =
     (case found of
        None \<Rightarrow> Inl TableElementNotFound
      | Some el \<Rightarrow>
          Inr \<lparr>tableElement = el, header = [], columnIds = [], originalData = [],
               displayData = [], selectedColumnId = []\<rparr>)"

subsection \<open>Rendering\<close>

definition renderHeader :: "SortableTable \<Rightarrow> SortableTable" where
  "renderHeader s =
     s\<lparr>tableElement := tableElement s @
        [Thead (map (\<lambda>column.
           \<lparr>th_id = id_col column, innerText = label column, sortable_attr = sortable column,
            data_id = id_col column, classList = [], listeners = 0\<rparr>) (header s))]\<rparr>"

text \<open>
  \<^verbatim>\<open>this.onSort.bind(this)\<close> is a new function at every call, so the
  \<^verbatim>\<open>removeEventListener\<close> before \<^verbatim>\<open>addEventListener\<close> removes nothing.
\<close>

definition setupEventListner :: "SortableTable \<Rightarrow> SortableTable" where
  "setupEventListner s =
     s\<lparr>tableElement :=
        foldl (\<lambda>el column.
           case getElementById (id_col column) el of
             None \<Rightarrow> el
           | Some pos \<Rightarrow>
               if sortable column
               then update_th pos (\<lambda>th.
                      th\<lparr>classList := classList_add ''sort'' (classList_add ''sortable'' (classList th)),
                         listeners := Suc (listeners th)\<rparr>) el
               else el)
          (tableElement s) (header s)\<rparr>"

fun map_result :: "('a \<Rightarrow> error + 'b) \<Rightarrow> 'a list \<Rightarrow> error + 'b list" where
  "map_result f [] = Inr []"
| "map_result f (x # xs) =
     (case f x of
        Inl e \<Rightarrow> Inl e
      | Inr y \<Rightarrow> (case map_result f xs of Inl e \<Rightarrow> Inl e | Inr ys \<Rightarrow> Inr (y # ys)))"

definition render_cell :: "Row \<Rightarrow> string \<Rightarrow> error + Td" where
  "render_cell row key =
     (case row key of
        None \<Rightarrow> Inl TypeError
      | Some cell \<Rightarrow>
          (case cellRenderer cell of
             Some render \<Rightarrow> Inr (TdHTML (render (cell_value cell)))
           | None \<Rightarrow> Inr (TdText (cell_value cell))))"

text \<open>
  \<^verbatim>\<open>renderData\<close>: the body is appended to the table element after all rows are built,
  so an exception on the way leaves the table element as it was.
\<close>

definition renderData :: "Row list \<Rightarrow> SortableTable \<Rightarrow> error option \<times> SortableTable" where
  "renderData data s =
     (case map_result (\<lambda>row. map_result (render_cell row) (columnIds s)) data of
        Inl e \<Rightarrow> (Some e, s)
      | Inr trs \<Rightarrow> (None, s\<lparr>tableElement := tableElement s @ [Tbody trs]\<rparr>))"

subsection \<open>The public operations\<close>

text \<open>
  An operation returns the exception it threw, if any, and the state it left. The
  argument of a setter is \<open>None\<close> for \<^verbatim>\<open>null\<close> and \<^verbatim>\<open>undefined\<close>, which are the values
  the guards \<^verbatim>\<open>if (!header) return\<close> and \<^verbatim>\<open>if (!data) return\<close> stop; an array, also
  the empty one, passes them.
\<close>

definition setHeader :: "Column list option \<Rightarrow> SortableTable \<Rightarrow> error option \<times> SortableTable" where
  "setHeader arg s =
     (case arg of
        None \<Rightarrow> (None, s)
      | Some hdr \<Rightarrow>
          (None, setupEventListner (renderHeader
                   (s\<lparr>header := hdr, columnIds := columnIds s @ map id_col hdr\<rparr>))))"

definition setData :: "Row list option \<Rightarrow> SortableTable \<Rightarrow> error option \<times> SortableTable" where
  "setData arg s =
     (case arg of
        None \<Rightarrow> (None, s)
      | Some data \<Rightarrow> renderData data (s\<lparr>originalData := data, displayData := data\<rparr>))"

definition getTableData :: "SortableTable \<Rightarrow> Row list" where
  "getTableData s = displayData s"

subsection \<open>Sorting\<close>

text \<open>
  \<^verbatim>\<open>getHeaderColmun\<close>: \<^verbatim>\<open>this.header.find((column) => column.id = columnId)\<close>. The
  callback assigns: it stores \<open>columnId\<close> in the column it visits, and its result is
  the assigned string, which counts as true unless it is empty. The model returns the
  index of the column found and the header after the assignments.
\<close>

fun getHeaderColmun :: "string \<Rightarrow> Column list \<Rightarrow> nat option \<times> Column list" where
  "getHeaderColmun columnId [] = (None, [])"
| "getHeaderColmun columnId (column # columns) =
     (if columnId \<noteq> []
      then (Some 0, column\<lparr>id_col := columnId\<rparr> # columns)
      else (case getHeaderColmun columnId columns of
              (found, columns') \<Rightarrow> (map_option Suc found, column\<lparr>id_col := columnId\<rparr> # columns')))"

definition getInversedSortDirection :: "SortDirection option \<Rightarrow> SortDirection" where
  "getInversedSortDirection direction =
     (if direction = None \<or> direction = Some Desc then Asc else Desc)"

definition clearSortDirection :: "Element \<Rightarrow> Element" where
  "clearSortDirection el =
     map (map_th (\<lambda>th. th\<lparr>classList :=
            classList_remove ''sort-asc'' (classList_remove ''sort-desc'' (classList th))\<rparr>)) el"

fun clearTableRow :: "Element \<Rightarrow> Element" where
  "clearTableRow [] = []"
| "clearTableRow (Tbody trs # ns) = ns"
| "clearTableRow (Thead ths # ns) = Thead ths # clearTableRow ns"

definition sort_class :: "SortDirection \<Rightarrow> string" where
  "sort_class direction = (case direction of Asc \<Rightarrow> ''sort-asc'' | Desc \<Rightarrow> ''sort-desc'')"

text \<open>The private method \<^verbatim>\<open>sort(columnId)\<close>, run by a click on a sortable header cell.\<close>

definition sort_table :: "string \<Rightarrow> SortableTable \<Rightarrow> error option \<times> SortableTable" where
  "sort_table columnId s =
     (case querySelector_data_id columnId (tableElement s) of
        None \<Rightarrow> (Some (DataIdNotFound columnId), s)
      | Some colmunElement \<Rightarrow>
          (case getHeaderColmun columnId (header s) of
             (None, hdr) \<Rightarrow> (Some (DataIdNotFound columnId), s\<lparr>header := hdr\<rparr>)
           | (Some i, hdr) \<Rightarrow>
               let direction =
                     (if selectedColumnId s = columnId
                      then getInversedSortDirection (sortDirection (hdr ! i))
                      else Asc);
                   s1 = s\<lparr>tableElement :=
                            clearTableRow
                              (update_th colmunElement
                                 (\<lambda>th. th\<lparr>classList := classList_add (sort_class direction) (classList th)\<rparr>)
                                 (clearSortDirection (tableElement s))),
                          header := hdr[i := (hdr ! i)\<lparr>sortDirection := Some direction\<rparr>],
                          selectedColumnId :=
                            (if selectedColumnId s = columnId then selectedColumnId s else columnId)\<rparr>
               in (case sort_internal columnId direction (originalData s1) of
                     Inl e \<Rightarrow> (Some e, s1)
                   | Inr sortedData \<Rightarrow>
                       renderData sortedData
                         (s1\<lparr>originalData := sortedData, displayData := sortedData\<rparr>))))"

text \<open>
  \<^verbatim>\<open>onSort\<close>: the argument is \<open>None\<close> when the event has no current target, and
  otherwise the \<^verbatim>\<open>data-id\<close> attribute of the target, \<open>None\<close> when it has none.
\<close>

definition onSort :: "string option option \<Rightarrow> SortableTable \<Rightarrow> error option \<times> SortableTable" where
  "onSort target s =
     (case target of
        None \<Rightarrow> (Some SortTargetNotFound, s)
      | Some attr \<Rightarrow> sort_table (case attr of None \<Rightarrow> [] | Some v \<Rightarrow> v) s)"

section \<open>Notions used in the statements\<close>

text \<open>
  The \<^verbatim>\<open>data-id\<close> attributes of the header cells of the table element, in document
  order: what \<^verbatim>\<open>querySelector\<close> searches.
\<close>

fun data_ids :: "Element \<Rightarrow> string list" where
  "data_ids [] = []"
| "data_ids (Thead ths # ns) = map data_id ths @ data_ids ns"
| "data_ids (Tbody trs # ns) = data_ids ns"

text \<open>
  Two conditions on the cells of column \<open>c\<close> of a dataset, in terms of the ascending
  comparison of the rows. \<open>no_ties\<close>: no two rows of the dataset compare as equal (the
  callback answers \<open>-1\<close> or \<open>1\<close> on every row and every row after it, and so, the
  comparison being symmetric, on every two rows). \<open>transitive_comparison\<close>: whenever
  the callback puts \<open>x\<close> before \<open>y\<close> and \<open>y\<close> before \<open>z\<close>, it puts \<open>x\<close> before \<open>z\<close>.
  Together they say that the callback is a strict total order on the rows, which is when
  the language fixes the result of the sort.
\<close>

definition no_ties :: "string \<Rightarrow> Row list \<Rightarrow> bool" where
  "no_ties c data \<longleftrightarrow>
     sorted_wrt (\<lambda>a b. comparator c 1 a b = Inr (- 1) \<or> comparator c 1 a b = Inr 1) data"

definition transitive_comparison :: "string \<Rightarrow> Row list \<Rightarrow> bool" where
  "transitive_comparison c data \<longleftrightarrow>
     (\<forall>x \<in> set data. \<forall>y \<in> set data. \<forall>z \<in> set data.
        comparator c 1 x y = Inr (- 1) \<and> comparator c 1 y z = Inr (- 1)
          \<longrightarrow> comparator c 1 x z = Inr (- 1))"

text \<open>
  \<open>consistent_comparison\<close>: on the rows of the dataset, "not after" is transitive: when
  the callback answers at most 0 on \<open>x\<close>, \<open>y\<close> and on \<open>y\<close>, \<open>z\<close>, it answers at most 0 on
  \<open>x\<close>, \<open>z\<close>. On such a dataset the callback is a consistent comparison in the sense of
  the language, ties allowed.
\<close>

definition not_after :: "string \<Rightarrow> Row \<Rightarrow> Row \<Rightarrow> bool" where
  "not_after c a b \<longleftrightarrow> (\<exists>v. v \<le> 0 \<and> comparator c 1 a b = Inr v)"

definition consistent_comparison :: "string \<Rightarrow> Row list \<Rightarrow> bool" where
  "consistent_comparison c data \<longleftrightarrow>
     (\<forall>x \<in> set data. \<forall>y \<in> set data. \<forall>z \<in> set data.
        not_after c x y \<and> not_after c y z \<longrightarrow> not_after c x z)"

section \<open>Example tables\<close>

text \<open>
  Tables built with the public operations, for the concrete cases below: a cell
  without a renderer, a sortable column that has no direction yet, rows of one column,
  and the table that \<^verbatim>\<open>setHeader\<close> and \<^verbatim>\<open>setData\<close> make of them in an empty table
  element.
\<close>

definition text_cell :: "string \<Rightarrow> Cell" where
  "text_cell v = \<lparr>cell_value = v, cellRenderer = None\<rparr>"

definition plain_column :: "string \<Rightarrow> Column" where
  "plain_column c = \<lparr>id_col = c, label = c, sortable = True, sortDirection = None\<rparr>"

definition single_column :: "string \<Rightarrow> string list \<Rightarrow> Row list" where
  "single_column c vs = map (\<lambda>v. [c \<mapsto> text_cell v]) vs"

definition column_values :: "string \<Rightarrow> Row list \<Rightarrow> string option list" where
  "column_values c rows = map (\<lambda>row. map_option cell_value (row c)) rows"

definition empty_table :: SortableTable where
  "empty_table =
     \<lparr>tableElement = [], header = [], columnIds = [], originalData = [],
      displayData = [], selectedColumnId = []\<rparr>"

definition table_with :: "string \<Rightarrow> string list \<Rightarrow> SortableTable" where
  "table_with c vs =
     snd (setData (Some (single_column c vs))
            (snd (setHeader (Some [plain_column c]) empty_table)))"

text \<open>
  The scenario of the specification: a header with the columns "name" and "age" and the
  rows of Bob (30) and Ann (5).
\<close>

definition people :: "Row list" where
  "people =
     [[''name'' \<mapsto> text_cell ''Bob'', ''age'' \<mapsto> text_cell ''30''],
      [''name'' \<mapsto> text_cell ''Ann'', ''age'' \<mapsto> text_cell ''5'']]"

definition people_table :: SortableTable where
  "people_table =
     snd (setData (Some people)
            (snd (setHeader (Some [plain_column ''name'', plain_column ''age'']) empty_table)))"

text \<open>
  The same table after a click on the header cell of "age" and a second \<^verbatim>\<open>setHeader\<close>
  with new column objects, "name" stored as descending and "age" as ascending.
\<close>

definition reheadered_people_table :: SortableTable where
  "reheadered_people_table =
     snd (setHeader
            (Some [\<lparr>id_col = ''name'', label = ''Name'', sortable = True, sortDirection = Some Desc\<rparr>,
                   \<lparr>id_col = ''age'', label = ''Age'', sortable = True, sortDirection = Some Asc\<rparr>])
            (snd (sort_table ''age'' people_table)))"

text \<open>
  A table whose header was set twice, first to the column "a", then to the column "b":
  the header cell of "a" is still in the table element and still has its click
  listener, while the header of the component holds the column "b" only.
\<close>

definition two_headers_table :: SortableTable where
  "two_headers_table =
     snd (setData (Some [[''a'' \<mapsto> text_cell ''2'', ''b'' \<mapsto> text_cell ''x''],
                         [''a'' \<mapsto> text_cell ''1'', ''b'' \<mapsto> text_cell ''y'']])
            (snd (setHeader (Some [plain_column ''b''])
                   (snd (setHeader (Some [plain_column ''a'']) empty_table)))))"

section \<open>Unfolding the model on concrete inputs\<close>

lemmas policy_defs =
  compare_values_def canCastToNumber_def removeCommas_def Number_def round_to_double_def
  decimal_value_def digit_value_def three_way_def

lemmas sort_defs = sort_internal_def comparator_def

lemmas table_defs =
  setData_def setHeader_def renderData_def renderHeader_def setupEventListner_def
  render_cell_def getElementById_def update_th_def classList_add_def classList_remove_def
  sort_table_def querySelector_data_id_def clearSortDirection_def sort_class_def
  getInversedSortDirection_def getTableData_def

lemmas example_defs =
  text_cell_def plain_column_def single_column_def column_values_def empty_table_def
  table_with_def people_def people_table_def reheadered_people_table_def
  two_headers_table_def

lemma new_SortableTable_empty: "new_SortableTable (Some []) = Inr empty_table"
  by (simp add: new_SortableTable_def empty_table_def)

section \<open>Properties of the array sort\<close>

text \<open>The sort keeps the elements, and it returns when the callback does.\<close>

lemma insort_cmp_mset:
  "insort_cmp cmp x ys = Inr zs \<Longrightarrow> mset zs = add_mset x (mset ys)"
  by (induction ys arbitrary: zs) (auto split: sum.splits if_splits)

lemma array_sort_mset:
  "array_sort cmp xs = Inr ys \<Longrightarrow> mset ys = mset xs"
  by (induction xs arbitrary: ys) (auto split: sum.splits dest: insort_cmp_mset)

lemma insort_cmp_total:
  "\<forall>y \<in> set ys. \<exists>v. cmp x y = Inr v \<Longrightarrow> \<exists>zs. insort_cmp cmp x ys = Inr zs"
  by (induction ys) (auto split: sum.splits)

lemma array_sort_total:
  assumes "\<forall>a \<in> set xs. \<forall>b \<in> set xs. \<exists>v. cmp a b = Inr v"
  shows "\<exists>ys. array_sort cmp xs = Inr ys"
  using assms
proof (induction xs)
  case Nil
  show ?case by simp
next
  case (Cons x xs)
  then obtain ys where ys: "array_sort cmp xs = Inr ys" by auto
  then have "set ys = set xs" by (metis array_sort_mset set_mset_mset)
  with Cons.prems have "\<forall>y \<in> set ys. \<exists>v. cmp x y = Inr v" by simp
  from insort_cmp_total [of ys cmp x, OF this] obtain zs where "insort_cmp cmp x ys = Inr zs" ..
  with ys show ?case by simp
qed

text \<open>
  The result is ordered by any relation \<open>R\<close> that the callback respects on the pairs it
  is asked about (an element and one that follows it in the input) and that is
  transitive on the elements.
\<close>

lemma insort_cmp_sorted:
  assumes "insort_cmp cmp x ys = Inr zs"
    and "sorted_wrt R ys"
    and "\<forall>y \<in> set ys. \<forall>v. cmp x y = Inr v \<longrightarrow> (v \<le> 0 \<longrightarrow> R x y) \<and> (0 < v \<longrightarrow> R y x)"
    and "\<forall>y \<in> set ys. \<forall>z \<in> set ys. R x y \<longrightarrow> R y z \<longrightarrow> R x z"
  shows "sorted_wrt R zs"
  using assms
proof (induction ys arbitrary: zs)
  case Nil
  then show ?case by auto
next
  case (Cons y ys)
  from Cons.prems(1) obtain v where v: "cmp x y = Inr v"
    by (auto split: sum.splits)
  have head: "(v \<le> 0 \<longrightarrow> R x y) \<and> (0 < v \<longrightarrow> R y x)"
    using Cons.prems(3) v by (meson list.set_intros(1))
  have tail: "\<forall>y \<in> set ys. \<forall>v. cmp x y = Inr v \<longrightarrow> (v \<le> 0 \<longrightarrow> R x y) \<and> (0 < v \<longrightarrow> R y x)"
    using Cons.prems(3) by (meson list.set_intros(2))
  have sorted_tail: "sorted_wrt R ys" and below: "\<forall>z \<in> set ys. R y z"
    using Cons.prems(2) by simp_all
  show ?case
  proof (cases "v \<le> 0")
    case True
    with v Cons.prems(1) have zs: "zs = x # y # ys" by simp
    from True head have xy: "R x y" by blast
    have "\<forall>z \<in> set ys. R x z"
    proof
      fix z assume z: "z \<in> set ys"
      with below have "R y z" by blast
      with xy z Cons.prems(4) show "R x z" by (meson list.set_intros)
    qed
    with xy Cons.prems(2) zs show ?thesis by simp
  next
    case False
    with v Cons.prems(1) obtain zs' where zs': "insort_cmp cmp x ys = Inr zs'" and zs: "zs = y # zs'"
      by (auto split: sum.splits)
    from False head have yx: "R y x" by simp
    have trans_tail: "\<forall>y \<in> set ys. \<forall>z \<in> set ys. R x y \<longrightarrow> R y z \<longrightarrow> R x z"
      using Cons.prems(4) by (meson list.set_intros(2))
    have "sorted_wrt R zs'"
      by (rule Cons.IH [OF zs' sorted_tail tail trans_tail])
    moreover have "set zs' = insert x (set ys)"
      using insort_cmp_mset [OF zs'] by (metis set_mset_add_mset_insert set_mset_mset)
    ultimately show ?thesis
      using zs yx below by simp
  qed
qed

lemma array_sort_sorted:
  assumes "array_sort cmp xs = Inr ys"
    and "sorted_wrt (\<lambda>a b. \<forall>v. cmp a b = Inr v \<longrightarrow> (v \<le> 0 \<longrightarrow> R a b) \<and> (0 < v \<longrightarrow> R b a)) xs"
    and "\<forall>a \<in> set xs. \<forall>b \<in> set xs. \<forall>c \<in> set xs. R a b \<longrightarrow> R b c \<longrightarrow> R a c"
  shows "sorted_wrt R ys"
  using assms
proof (induction xs arbitrary: ys)
  case Nil
  then show ?case by simp
next
  case (Cons x xs)
  from Cons.prems(1) obtain ys' where ys': "array_sort cmp xs = Inr ys'"
    and ys: "insort_cmp cmp x ys' = Inr ys"
    by (auto split: sum.splits)
  have set: "set ys' = set xs"
    using array_sort_mset [OF ys'] by (metis set_mset_mset)
  have pairs_tail: "sorted_wrt (\<lambda>a b. \<forall>v. cmp a b = Inr v \<longrightarrow> (v \<le> 0 \<longrightarrow> R a b) \<and> (0 < v \<longrightarrow> R b a)) xs"
    and pairs_head: "\<forall>y \<in> set xs. \<forall>v. cmp x y = Inr v \<longrightarrow> (v \<le> 0 \<longrightarrow> R x y) \<and> (0 < v \<longrightarrow> R y x)"
    using Cons.prems(2) by simp_all
  have trans_tail: "\<forall>a \<in> set xs. \<forall>b \<in> set xs. \<forall>c \<in> set xs. R a b \<longrightarrow> R b c \<longrightarrow> R a c"
    using Cons.prems(3) by (meson list.set_intros(2))
  have trans_head: "\<forall>y \<in> set xs. \<forall>z \<in> set xs. R x y \<longrightarrow> R y z \<longrightarrow> R x z"
    using Cons.prems(3) by (meson list.set_intros)
  have sorted_rest: "sorted_wrt R ys'"
    by (rule Cons.IH [OF ys' pairs_tail trans_tail])
  show ?case
    by (rule insort_cmp_sorted [OF ys sorted_rest])
      (use pairs_head trans_head in \<open>simp_all only: set\<close>)
qed

text \<open>
  An array in which the callback puts every element after all those that follow it
  comes out reversed.
\<close>

lemma insort_cmp_after_all:
  "\<forall>y \<in> set zs. \<exists>v. 0 < v \<and> cmp x y = Inr v \<Longrightarrow> insort_cmp cmp x zs = Inr (zs @ [x])"
  by (induction zs) auto

lemma array_sort_reversed:
  "sorted_wrt (\<lambda>a b. \<exists>v. 0 < v \<and> cmp a b = Inr v) xs \<Longrightarrow> array_sort cmp xs = Inr (rev xs)"
proof (induction xs)
  case Nil
  show ?case by simp
next
  case (Cons x xs)
  then have rest: "array_sort cmp xs = Inr (rev xs)" by simp
  from Cons.prems have "\<forall>y \<in> set (rev xs). \<exists>v. 0 < v \<and> cmp x y = Inr v" by simp
  from insort_cmp_after_all [of "rev xs" cmp x, OF this] rest show ?case by simp
qed

section \<open>Properties of the comparison\<close>

text \<open>Swapping the arguments, or the direction, negates the result.\<close>

lemma three_way_swap: "three_way sign b a = - three_way sign a b"
  by (auto simp: three_way_def)

lemma three_way_neg: "three_way (- sign) a b = - three_way sign a b"
  by (auto simp: three_way_def)

lemma compare_values_swap: "compare_values sign b a = - compare_values sign a b"
proof (cases "canCastToNumber a \<and> canCastToNumber b")
  case True
  then show ?thesis
    using three_way_swap [of sign "Number (removeCommas b)" "Number (removeCommas a)"]
    by (simp add: compare_values_def)
next
  case False
  then show ?thesis
    using three_way_swap [of sign b a]
    by (auto simp: compare_values_def)
qed

lemma compare_values_neg: "compare_values (- sign) a b = - compare_values sign a b"
proof (cases "canCastToNumber a \<and> canCastToNumber b")
  case True
  then show ?thesis
    using three_way_neg [of sign "Number (removeCommas a)" "Number (removeCommas b)"]
    by (simp add: compare_values_def)
next
  case False
  then show ?thesis
    using three_way_neg [of sign a b]
    by (auto simp: compare_values_def)
qed


lemma comparator_swap:
  "comparator c sign a b = Inr v \<longleftrightarrow> comparator c sign b a = Inr (- v)"
proof (cases "a c")
  case None
  then show ?thesis by (cases "b c") (simp_all add: comparator_def)
next
  case a: (Some ca)
  show ?thesis
  proof (cases "b c")
    case None
    then show ?thesis by (simp add: comparator_def a)
  next
    case b: (Some cb)
    have eq: "compare_values sign (cell_value cb) (cell_value ca)
        = - compare_values sign (cell_value ca) (cell_value cb)"
      by (rule compare_values_swap)
    show ?thesis
      unfolding comparator_def a b option.case sum.inject eq by (simp only: neg_equal_iff_equal)
  qed
qed

lemma comparator_neg:
  "comparator c (- sign) a b = Inr v \<longleftrightarrow> comparator c sign a b = Inr (- v)"
proof (cases "a c")
  case None
  then show ?thesis by (simp add: comparator_def)
next
  case a: (Some ca)
  show ?thesis
  proof (cases "b c")
    case None
    then show ?thesis by (simp add: comparator_def a)
  next
    case b: (Some cb)
    have eq: "compare_values (- sign) (cell_value ca) (cell_value cb)
        = - compare_values sign (cell_value ca) (cell_value cb)"
      by (rule compare_values_neg)
    show ?thesis
      unfolding comparator_def a b option.case sum.inject eq by auto
  qed
qed

lemma comparator_total:
  "a c \<noteq> None \<Longrightarrow> b c \<noteq> None \<Longrightarrow> \<exists>v. comparator c sign a b = Inr v"
  by (auto simp: comparator_def)

lemma comparator_sign_values:
  assumes "sg = 1 \<or> sg = - 1"
    and "comparator c 1 a b = Inr (- 1) \<or> comparator c 1 a b = Inr 1"
    and "comparator c sg a b = Inr v"
  shows "v = - 1 \<or> v = 1"
proof (cases "sg = 1")
  case True
  with assms(2,3) show ?thesis by auto
next
  case False
  with assms(1) have "sg = - 1" by simp
  with assms(3) have "comparator c 1 a b = Inr (- v)"
    using comparator_neg [of c 1 a b v] by simp
  with assms(2) show ?thesis by auto
qed

lemma toggle_core:
  assumes sg: "sg = 1 \<or> sg = - 1"
    and nt: "no_ties c data"
    and tr: "transitive_comparison c data"
    and first: "array_sort (comparator c sg) data = Inr ys"
  shows "array_sort (comparator c (- sg)) ys = Inr (rev ys)"
proof -
  define R where "R a b \<longleftrightarrow> comparator c sg a b = Inr (- 1)" for a b
  have pairs: "sorted_wrt (\<lambda>a b. \<forall>v. comparator c sg a b = Inr v \<longrightarrow>
      (v \<le> 0 \<longrightarrow> R a b) \<and> (0 < v \<longrightarrow> R b a)) data"
  proof (rule sorted_wrt_mono_rel [OF _ nt [unfolded no_ties_def]])
    fix a b
    assume ab: "comparator c 1 a b = Inr (- 1) \<or> comparator c 1 a b = Inr 1"
    show "\<forall>v. comparator c sg a b = Inr v \<longrightarrow> (v \<le> 0 \<longrightarrow> R a b) \<and> (0 < v \<longrightarrow> R b a)"
    proof (intro allI impI)
      fix v
      assume v: "comparator c sg a b = Inr v"
      from comparator_sign_values [OF sg ab v] have "v = - 1 \<or> v = 1" .
      moreover have "comparator c sg b a = Inr (- v)"
        using v comparator_swap [of c sg a b v] by simp
      ultimately show "(v \<le> 0 \<longrightarrow> R a b) \<and> (0 < v \<longrightarrow> R b a)"
        using v by (auto simp: R_def)
    qed
  qed
  have R_pos: "R a b \<longleftrightarrow> comparator c 1 a b = Inr (- 1)" if "sg = 1" for a b
    unfolding R_def that ..
  have R_neg: "R a b \<longleftrightarrow> comparator c 1 b a = Inr (- 1)" if "sg = - 1" for a b
  proof -
    have "comparator c (- 1) a b = Inr (- 1) \<longleftrightarrow> comparator c 1 a b = Inr 1"
      using comparator_neg [of c 1 a b "- 1"] by simp
    also have "\<dots> \<longleftrightarrow> comparator c 1 b a = Inr (- 1)"
      using comparator_swap [of c 1 a b 1] by simp
    finally show ?thesis
      unfolding R_def that .
  qed
  have trans: "\<forall>x \<in> set data. \<forall>y \<in> set data. \<forall>z \<in> set data. R x y \<longrightarrow> R y z \<longrightarrow> R x z"
  proof (intro ballI impI)
    fix x y z
    assume mem: "x \<in> set data" "y \<in> set data" "z \<in> set data" and xy: "R x y" and yz: "R y z"
    show "R x z"
    proof (cases "sg = 1")
      case True
      from xy yz have "comparator c 1 x y = Inr (- 1)" "comparator c 1 y z = Inr (- 1)"
        unfolding R_pos [OF True] .
      with mem tr have "comparator c 1 x z = Inr (- 1)"
        unfolding transitive_comparison_def by blast
      then show ?thesis unfolding R_pos [OF True] .
    next
      case False
      with sg have m: "sg = - 1" by blast
      from yz xy have "comparator c 1 z y = Inr (- 1)" "comparator c 1 y x = Inr (- 1)"
        unfolding R_neg [OF m] .
      with mem tr have "comparator c 1 z x = Inr (- 1)"
        unfolding transitive_comparison_def by blast
      then show ?thesis unfolding R_neg [OF m] .
    qed
  qed
  have "sorted_wrt R ys"
    by (rule array_sort_sorted [OF first pairs trans])
  then have "sorted_wrt (\<lambda>a b. \<exists>v. 0 < v \<and> comparator c (- sg) a b = Inr v) ys"
  proof (rule sorted_wrt_mono_rel [rotated])
    fix a b
    assume "R a b"
    then have "comparator c (- sg) a b = Inr 1"
      using comparator_neg [of c sg a b 1] by (simp add: R_def)
    then show "\<exists>v. 0 < v \<and> comparator c (- sg) a b = Inr v" by simp
  qed
  then show ?thesis by (rule array_sort_reversed)
qed

lemma sort_internal_toggle:
  assumes "no_ties c data" and "transitive_comparison c data"
    and "sort_internal c d data = Inr out"
  shows "sort_internal c (getInversedSortDirection (Some d)) out = Inr (rev out)"
proof (cases d)
  case Asc
  with assms(3) have "array_sort (comparator c 1) data = Inr out"
    by (simp add: sort_internal_def)
  from toggle_core [OF _ assms(1,2) this] Asc show ?thesis
    by (simp add: sort_internal_def getInversedSortDirection_def)
next
  case Desc
  with assms(3) have "array_sort (comparator c (- 1)) data = Inr out"
    by (simp add: sort_internal_def)
  from toggle_core [OF _ assms(1,2) this] Desc show ?thesis
    by (simp add: sort_internal_def getInversedSortDirection_def)
qed

text \<open>
  A value made of commas only matches the pattern and loses all its characters. On a
  dataset with a consistent comparison the ascending sort leaves no row after one that
  the callback puts it before, and the comparison is consistent on every column whose
  values all match the pattern.
\<close>

lemma sorted_wrt_trivial: "sorted_wrt (\<lambda>a b. True) xs"
  by (induction xs) simp_all

lemma comma_only_castable:
  assumes "commas \<noteq> []" and "set commas \<subseteq> {CHR '',''}"
  shows "canCastToNumber commas" and "removeCommas commas = []"
proof -
  have all: "\<forall>ch \<in> set commas. ch = CHR '',''" using assms(2) by auto
  then have "list_all (\<lambda>ch. ch \<in> set ''0123456789,'') commas"
    by (simp add: list_all_iff)
  with assms(1) show "canCastToNumber commas" by (simp add: canCastToNumber_def)
  from all show "removeCommas commas = []"
    by (simp add: removeCommas_def filter_empty_conv)
qed

lemma Number_empty: "Number [] = 0"
  by (simp add: Number_def decimal_value_def round_to_double_def zero_enat_def)

lemma consistent_sorted:
  assumes "consistent_comparison c data"
    and "sort_internal c Asc data = Inr out"
  shows "sorted_wrt (not_after c) out"
proof -
  have sort: "array_sort (comparator c 1) data = Inr out"
    using assms(2) by (simp add: sort_internal_def)
  have pairs: "sorted_wrt (\<lambda>a b. \<forall>v. comparator c 1 a b = Inr v \<longrightarrow>
      (v \<le> 0 \<longrightarrow> not_after c a b) \<and> (0 < v \<longrightarrow> not_after c b a)) data"
  proof (rule sorted_wrt_mono_rel [OF _ sorted_wrt_trivial])
    fix a b
    show "\<forall>v. comparator c 1 a b = Inr v \<longrightarrow>
      (v \<le> 0 \<longrightarrow> not_after c a b) \<and> (0 < v \<longrightarrow> not_after c b a)"
    proof (intro allI impI conjI)
      fix v
      assume "comparator c 1 a b = Inr v" and "v \<le> 0"
      then show "not_after c a b" unfolding not_after_def by blast
    next
      fix v
      assume v: "comparator c 1 a b = Inr v" and pos: "0 < v"
      from v have "comparator c 1 b a = Inr (- v)"
        using comparator_swap [of c 1 a b v] by simp
      moreover from pos have "- v \<le> 0" by simp
      ultimately show "not_after c b a" unfolding not_after_def by blast
    qed
  qed
  have trans: "\<forall>x \<in> set data. \<forall>y \<in> set data. \<forall>z \<in> set data.
      not_after c x y \<longrightarrow> not_after c y z \<longrightarrow> not_after c x z"
    using assms(1) unfolding consistent_comparison_def by blast
  show ?thesis
    by (rule array_sort_sorted [OF sort pairs trans])
qed

lemma numeric_column_consistent:
  assumes "\<forall>row \<in> set data. \<exists>cell. row c = Some cell \<and> canCastToNumber (cell_value cell)"
  shows "consistent_comparison c data"
  unfolding consistent_comparison_def
proof (intro ballI impI)
  fix x y z
  assume mem: "x \<in> set data" "y \<in> set data" "z \<in> set data"
    and xyz: "not_after c x y \<and> not_after c y z"
  from mem assms obtain cx cy cz where
    x: "x c = Some cx" "canCastToNumber (cell_value cx)" and
    y: "y c = Some cy" "canCastToNumber (cell_value cy)" and
    z: "z c = Some cz" "canCastToNumber (cell_value cz)"
    by blast
  define n :: "Cell \<Rightarrow> enat" where "n cell = Number (removeCommas (cell_value cell))" for cell
  have le: "not_after c a b \<longleftrightarrow> n ca \<le> n cb"
    if "a c = Some ca" "canCastToNumber (cell_value ca)"
      "b c = Some cb" "canCastToNumber (cell_value cb)" for a b ca cb
    using that
    by (auto simp: not_after_def comparator_def compare_values_def three_way_def n_def)
  from xyz have "n cx \<le> n cy" "n cy \<le> n cz"
    using le [of x cx y cy, OF x y] le [of y cy z cz, OF y z] by simp_all
  then have "n cx \<le> n cz" by simp
  then show "not_after c x z" using le [of x cx z cz, OF x z] by simp
qed

section \<open>Properties of the table element and of the sort operation\<close>

lemma getHeaderColmun_cases:
  "getHeaderColmun c h =
     (if c \<noteq> [] \<and> h \<noteq> [] then (Some 0, (hd h)\<lparr>id_col := c\<rparr> # tl h)
      else (None, map (\<lambda>column. column\<lparr>id_col := c\<rparr>) h))"
  by (induction h) auto

lemma find_index_opt_None: "find_index_opt P xs = None \<longleftrightarrow> (\<forall>x \<in> set xs. \<not> P x)"
  by (induction xs) auto

lemma find_th_None: "find_th (\<lambda>th. data_id th = c) el = None \<longleftrightarrow> c \<notin> set (data_ids el)"
proof (induction el)
  case Nil
  show ?case by simp
next
  case (Cons n ns)
  show ?case
  proof (cases n)
    case (Thead ths)
    show ?thesis
    proof (cases "find_index_opt (\<lambda>th. data_id th = c) ths")
      case None
      then have "c \<notin> data_id ` set ths"
        using find_index_opt_None [of "\<lambda>th. data_id th = c" ths] by auto
      with None Cons.IH Thead show ?thesis by simp
    next
      case (Some j)
      then have "c \<in> data_id ` set ths"
        using find_index_opt_None [of "\<lambda>th. data_id th = c" ths] by auto
      with Some Thead show ?thesis by simp
    qed
  next
    case (Tbody trs)
    with Cons.IH show ?thesis by simp
  qed
qed

lemma querySelector_data_id_None:
  "querySelector_data_id c el = None \<longleftrightarrow> c \<notin> set (data_ids el)"
  by (simp add: querySelector_data_id_def find_th_None)

lemma data_ids_append: "data_ids (el @ el') = data_ids el @ data_ids el'"
  by (induction el rule: data_ids.induct) simp_all

lemma data_ids_clearTableRow: "data_ids (clearTableRow el) = data_ids el"
  by (induction el rule: clearTableRow.induct) simp_all

lemma data_ids_map_th:
  "(\<And>th. data_id (f th) = data_id th) \<Longrightarrow> data_ids (map (map_th f) el) = data_ids el"
  by (induction el rule: data_ids.induct) simp_all

lemma data_ids_clearSortDirection: "data_ids (clearSortDirection el) = data_ids el"
  unfolding clearSortDirection_def by (rule data_ids_map_th) simp

lemma data_ids_update_node:
  assumes "\<And>th. data_id (f th) = data_id th"
  shows "data_ids (update_node j f n # ns) = data_ids (n # ns)"
proof (cases n)
  case (Thead ths)
  have "map data_id (ths[j := f (ths ! j)]) = map data_id ths" if "j < length ths"
    using that by (simp add: map_update assms list_update_same_conv)
  with Thead show ?thesis by simp
next
  case (Tbody trs)
  then show ?thesis by simp
qed

lemma data_ids_list_update:
  assumes "data_ids (n' # []) = data_ids (el ! i # [])"
  shows "data_ids (el[i := n']) = data_ids el"
  using assms
proof (induction el arbitrary: i)
  case Nil
  show ?case by simp
next
  case (Cons n ns)
  show ?case
  proof (cases i)
    case 0
    with Cons.prems show ?thesis
      by (cases n; cases n') simp_all
  next
    case (Suc k)
    with Cons.prems have "data_ids (ns[k := n']) = data_ids ns"
      by (intro Cons.IH) simp
    with Suc show ?thesis by (cases n) simp_all
  qed
qed

lemma data_ids_update_th:
  assumes "\<And>th. data_id (f th) = data_id th"
  shows "data_ids (update_th pos f el) = data_ids el"
proof (cases pos)
  case (Pair i j)
  have "data_ids (el[i := update_node j f (el ! i)]) = data_ids el"
    by (rule data_ids_list_update) (rule data_ids_update_node [OF assms])
  with Pair show ?thesis by (simp add: update_th_def)
qed

lemma isl_map_result: "isl (map_result f xs) \<longleftrightarrow> (\<exists>x \<in> set xs. isl (f x))"
  by (induction xs) (auto split: sum.splits)

lemma sort_table_found:
  assumes "querySelector_data_id c (tableElement s) = Some pos"
    and "c \<noteq> []" and "header s \<noteq> []"
  shows "sort_table c s =
    (let direction = (if selectedColumnId s = c
                      then getInversedSortDirection (sortDirection (hd (header s))) else Asc);
         s1 = s\<lparr>tableElement :=
                  clearTableRow
                    (update_th pos
                       (\<lambda>th. th\<lparr>classList := classList_add (sort_class direction) (classList th)\<rparr>)
                       (clearSortDirection (tableElement s))),
                header := (hd (header s))\<lparr>id_col := c, sortDirection := Some direction\<rparr> # tl (header s),
                selectedColumnId := c\<rparr>
     in (case sort_internal c direction (originalData s) of
           Inl e \<Rightarrow> (Some e, s1)
         | Inr sortedData \<Rightarrow>
             renderData sortedData (s1\<lparr>originalData := sortedData, displayData := sortedData\<rparr>)))"
  using assms by (simp add: sort_table_def getHeaderColmun_cases Let_def split: sum.split)

lemma sort_table_not_found:
  assumes "querySelector_data_id c (tableElement s) = None \<or> c = [] \<or> header s = []"
  shows "fst (sort_table c s) = Some (DataIdNotFound c)"
  using assms by (auto simp: sort_table_def getHeaderColmun_cases split: option.splits)


lemma renderData_fst:
  "fst (renderData data s) = None \<longleftrightarrow>
     \<not> isl (map_result (\<lambda>row. map_result (render_cell row) (columnIds s)) data)"
  by (simp add: renderData_def split: sum.split)

lemma renderData_fields:
  "originalData (snd (renderData data s)) = originalData s"
  "displayData (snd (renderData data s)) = displayData s"
  "selectedColumnId (snd (renderData data s)) = selectedColumnId s"
  "header (snd (renderData data s)) = header s"
  "columnIds (snd (renderData data s)) = columnIds s"
  "data_ids (tableElement (snd (renderData data s))) = data_ids (tableElement s)"
  by (simp_all add: renderData_def data_ids_append split: sum.split)

lemma sort_table_success:
  assumes "fst (sort_table c s) = None"
  defines "d \<equiv> (if selectedColumnId s = c
                 then getInversedSortDirection (sortDirection (hd (header s))) else Asc)"
  shows "\<exists>out.
           sort_internal c d (originalData s) = Inr out \<and>
           \<not> isl (map_result (\<lambda>row. map_result (render_cell row) (columnIds s)) out) \<and>
           c \<noteq> [] \<and> header s \<noteq> [] \<and> c \<in> set (data_ids (tableElement s)) \<and>
           originalData (snd (sort_table c s)) = out \<and>
           displayData (snd (sort_table c s)) = out \<and>
           selectedColumnId (snd (sort_table c s)) = c \<and>
           header (snd (sort_table c s))
             = (hd (header s))\<lparr>id_col := c, sortDirection := Some d\<rparr> # tl (header s) \<and>
           columnIds (snd (sort_table c s)) = columnIds s \<and>
           data_ids (tableElement (snd (sort_table c s))) = data_ids (tableElement s)"
proof -
  have "\<not> (querySelector_data_id c (tableElement s) = None \<or> c = [] \<or> header s = [])"
  proof
    assume "querySelector_data_id c (tableElement s) = None \<or> c = [] \<or> header s = []"
    from sort_table_not_found [OF this] assms(1) show False by simp
  qed
  then have found: "querySelector_data_id c (tableElement s) \<noteq> None" and c: "c \<noteq> []"
    and h: "header s \<noteq> []"
    by simp_all
  then obtain pos where pos: "querySelector_data_id c (tableElement s) = Some pos" by auto
  have mem: "c \<in> set (data_ids (tableElement s))"
    using found by (simp add: querySelector_data_id_None)
  note eq = sort_table_found [OF pos c h, folded d_def]
  show ?thesis
  proof (cases "sort_internal c d (originalData s)")
    case (Inl e)
    with eq assms(1) show ?thesis by (simp add: Let_def)
  next
    case (Inr out)
    with eq assms(1) c h mem show ?thesis
      by (simp add: Let_def renderData_fst renderData_fields data_ids_clearTableRow
          data_ids_update_th data_ids_clearSortDirection)
  qed
qed

lemma sort_table_succeeds:
  assumes "c \<in> set (data_ids (tableElement s))" and "c \<noteq> []" and "header s \<noteq> []"
    and "sort_internal c (if selectedColumnId s = c
           then getInversedSortDirection (sortDirection (hd (header s))) else Asc)
           (originalData s) = Inr out"
    and "\<not> isl (map_result (\<lambda>row. map_result (render_cell row) (columnIds s)) out)"
  shows "fst (sort_table c s) = None \<and> displayData (snd (sort_table c s)) = out"
proof -
  from assms(1) obtain pos where pos: "querySelector_data_id c (tableElement s) = Some pos"
    using querySelector_data_id_None [of c "tableElement s"] by auto
  show ?thesis
    using assms(4,5)
    by (simp add: sort_table_found [OF pos assms(2,3)] Let_def renderData_fst renderData_fields)
qed

section \<open>The setters and the getter\<close>

text \<open>
  Claim C7. For every dataset \<open>D\<close> and every state of the component, \<^verbatim>\<open>setData(D)\<close>
  followed by \<^verbatim>\<open>getTableData()\<close> returns \<open>D\<close>: the same rows in the same order. The
  dataset is stored before the body is rendered, so this holds also when rendering
  throws.
\<close>

theorem setData_getTableData:
  "getTableData (snd (setData (Some D) s)) = D"
  by (simp add: setData_def renderData_def getTableData_def split: sum.split)

text \<open>
  Claim C8, as the code has it. An absent header or dataset (\<^verbatim>\<open>null\<close> or
  \<^verbatim>\<open>undefined\<close>) is a silent no-op: no error, and the state is the one before. An
  empty array is not absent: \<^verbatim>\<open>setHeader([])\<close> replaces the header by the empty one
  and appends an empty \<^verbatim>\<open>thead\<close>, \<^verbatim>\<open>setData([])\<close> replaces both datasets by the empty
  one and appends an empty \<^verbatim>\<open>tbody\<close>; neither raises an error.
\<close>

theorem absent_argument_is_noop:
  "setHeader None s = (None, s) \<and> setData None s = (None, s) \<and>
   setHeader (Some []) s = (None, s\<lparr>tableElement := tableElement s @ [Thead []], header := []\<rparr>) \<and>
   setData (Some []) s =
     (None, s\<lparr>tableElement := tableElement s @ [Tbody []], originalData := [], displayData := []\<rparr>)"
  by (simp add: setHeader_def setData_def renderData_def renderHeader_def setupEventListner_def)

text \<open>
  Claim C8 as stated fails for the empty arrays: on a table that holds one column and
  one row, \<^verbatim>\<open>setHeader([])\<close> changes the header and \<^verbatim>\<open>setData([])\<close> changes the backing
  and the display dataset.
\<close>

theorem empty_argument_changes_state:
  "header (snd (setHeader (Some []) (table_with ''c'' [''1''])))
     \<noteq> header (table_with ''c'' [''1'']) \<and>
   originalData (snd (setData (Some []) (table_with ''c'' [''1''])))
     \<noteq> originalData (table_with ''c'' [''1'']) \<and>
   displayData (snd (setData (Some []) (table_with ''c'' [''1''])))
     \<noteq> displayData (table_with ''c'' [''1''])"
  by (simp add: table_defs example_defs)

section \<open>The column lookup\<close>

text \<open>
  Claim C5. Called with a non-empty \<open>columnId\<close> on a non-empty header, the lookup
  \<^verbatim>\<open>getHeaderColmun\<close> returns the first column of the header (index 0) and leaves the
  header with that first column's id overwritten by \<open>columnId\<close>, the other columns
  untouched.
\<close>

theorem getHeaderColmun_first_column:
  assumes "columnId \<noteq> []" and "hdr \<noteq> []"
  shows "getHeaderColmun columnId hdr = (Some 0, (hd hdr)\<lparr>id_col := columnId\<rparr> # tl hdr)"
  using assms by (cases hdr) simp_all

theorem getHeaderColmun_first_column_witness:
  "getHeaderColmun ''age'' [plain_column ''name'', plain_column ''age'']
     = (Some 0, [(plain_column ''name'')\<lparr>id_col := ''age''\<rparr>, plain_column ''age''])"
  using getHeaderColmun_first_column [of "''age''" "[plain_column ''name'', plain_column ''age'']"]
  by simp

section \<open>The comparison policy on the examples of the specification\<close>

text \<open>
  Claim C2. A column with the values "10", "2", "1,000". Each value matches the
  pattern; removing the commas turns "1,000" into "1000", and the three values are
  read as the numbers 10, 2 and 1000. The ascending comparison orders every pair by
  these numbers, against the order of the strings, in which "1,000" is before "10" and
  "10" before "2". The first sort of the column, which is ascending, succeeds and
  leaves the rows in the order "2", "10", "1,000", not in the lexicographic order
  "1,000", "10", "2".
\<close>

theorem numeric_column_sorted_by_number:
  "canCastToNumber ''10'' \<and> canCastToNumber ''2'' \<and> canCastToNumber ''1,000'' \<and>
   removeCommas ''1,000'' = ''1000'' \<and>
   Number (removeCommas ''10'') = enat 10 \<and>
   Number (removeCommas ''2'') = enat 2 \<and>
   Number (removeCommas ''1,000'') = enat 1000 \<and>
   compare_values 1 ''2'' ''10'' = - 1 \<and>
   compare_values 1 ''10'' ''1,000'' = - 1 \<and>
   compare_values 1 ''2'' ''1,000'' = - 1 \<and>
   compare_values 1 ''10'' ''2'' = 1 \<and>
   compare_values 1 ''1,000'' ''10'' = 1 \<and>
   compare_values 1 ''1,000'' ''2'' = 1 \<and>
   ''1,000'' < ''10'' \<and> ''10'' < ''2'' \<and>
   fst (sort_table ''c'' (table_with ''c'' [''10'', ''2'', ''1,000''])) = None \<and>
   column_values ''c''
     (getTableData (snd (sort_table ''c'' (table_with ''c'' [''10'', ''2'', ''1,000'']))))
     = [Some ''2'', Some ''10'', Some ''1,000''] \<and>
   column_values ''c''
     (getTableData (snd (sort_table ''c'' (table_with ''c'' [''10'', ''2'', ''1,000'']))))
     \<noteq> [Some ''1,000'', Some ''10'', Some ''2''] \<and>
   sort_internal ''c'' Asc (single_column ''c'' [''10'', ''2'', ''1,000''])
     = Inr (single_column ''c'' [''2'', ''10'', ''1,000''])"
  by (simp add: policy_defs sort_defs table_defs example_defs)

text \<open>
  Claim C1, as the code has it. A column with the values "10", "abc", "2": the
  comparison decides for each pair of values on its own whether both match the
  pattern. "10" and "2" both match and are compared as numbers, so "2" comes before
  "10"; each of them is compared with "abc" as a string. The ascending sort leaves the
  rows in the order "2", "10", "abc".
\<close>

theorem mixed_column_sorted_pairwise:
  "compare_values 1 ''10'' ''2'' = 1 \<and>
   compare_values 1 ''10'' ''abc'' = - 1 \<and>
   compare_values 1 ''2'' ''abc'' = - 1 \<and>
   fst (sort_table ''c'' (table_with ''c'' [''10'', ''abc'', ''2''])) = None \<and>
   column_values ''c''
     (getTableData (snd (sort_table ''c'' (table_with ''c'' [''10'', ''abc'', ''2'']))))
     = [Some ''2'', Some ''10'', Some ''abc'']"
  by (simp add: policy_defs sort_defs table_defs example_defs)

text \<open>
  Claim C1 as stated fails: the ascending sort of that column does not yield the
  lexicographic order "10", "2", "abc".
\<close>

theorem mixed_column_not_lexicographic:
  "column_values ''c''
     (getTableData (snd (sort_table ''c'' (table_with ''c'' [''10'', ''abc'', ''2'']))))
     \<noteq> [Some ''10'', Some ''2'', Some ''abc'']"
  by (simp add: policy_defs sort_defs table_defs example_defs)

section \<open>The internal sort\<close>

text \<open>
  Claim C9. For every backing dataset, every \<open>columnId\<close> that is a key of all its rows
  and every direction, \<^verbatim>\<open>_sort\<close> returns, and what it returns is a permutation of the
  dataset: the same multiset of rows, each row the value it was.
\<close>

theorem sort_internal_permutation:
  assumes "\<forall>row \<in> set data. columnId \<in> dom row"
  shows "\<exists>out. sort_internal columnId direction data = Inr out \<and> mset out = mset data"
proof -
  have "\<forall>a \<in> set data. \<forall>b \<in> set data.
      \<exists>v. comparator columnId (if direction = Asc then 1 else - 1) a b = Inr v"
    using assms by (auto intro!: comparator_total)
  then obtain out
    where "array_sort (comparator columnId (if direction = Asc then 1 else - 1)) data = Inr out"
    using array_sort_total by blast
  then show ?thesis
    by (auto simp: sort_internal_def dest: array_sort_mset)
qed

theorem sort_internal_permutation_witness:
  "\<exists>out. sort_internal ''c'' Desc (single_column ''c'' [''b'', ''a'', ''c'']) = Inr out
     \<and> mset out = mset (single_column ''c'' [''b'', ''a'', ''c''])"
  using sort_internal_permutation [of "single_column ''c'' [''b'', ''a'', ''c'']" "''c''" Desc]
  by (simp add: single_column_def)

section \<open>The sort operation\<close>

text \<open>
  What \<^verbatim>\<open>sort(columnId)\<close> does with the direction once it is past its two lookups: the
  column it works on is the first of the header, whatever \<open>columnId\<close> is. If \<open>columnId\<close>
  is the selected column id the direction is the flip of the one stored in that first
  column, and otherwise it is ascending.
\<close>

lemma sort_table_direction:
  assumes "fst (sort_table columnId s) \<noteq> Some (DataIdNotFound columnId)"
  shows "let direction =
               (if selectedColumnId s = columnId
                then getInversedSortDirection (sortDirection (hd (header s)))
                else Asc);
             s' = snd (sort_table columnId s)
         in selectedColumnId s' = columnId \<and>
            hd (header s') = (hd (header s))\<lparr>id_col := columnId, sortDirection := Some direction\<rparr> \<and>
            (case sort_internal columnId direction (originalData s) of
               Inl e \<Rightarrow> fst (sort_table columnId s) = Some e \<and>
                         originalData s' = originalData s \<and> displayData s' = displayData s
             | Inr sortedData \<Rightarrow> originalData s' = sortedData \<and> displayData s' = sortedData) \<and>
            getInversedSortDirection (Some Asc) = Desc \<and>
            getInversedSortDirection (Some Desc) = Asc \<and>
            getInversedSortDirection None = Asc"
proof -
  have "\<not> (querySelector_data_id columnId (tableElement s) = None \<or> columnId = [] \<or> header s = [])"
  proof
    assume "querySelector_data_id columnId (tableElement s) = None \<or> columnId = [] \<or> header s = []"
    from sort_table_not_found [OF this] assms show False by simp
  qed
  then obtain pos where pos: "querySelector_data_id columnId (tableElement s) = Some pos"
    and c: "columnId \<noteq> []" and h: "header s \<noteq> []"
    by auto
  show ?thesis
    unfolding sort_table_found [OF pos c h]
    by (simp add: Let_def renderData_fields getInversedSortDirection_def split: sum.split)
qed

text \<open>
  Claim C3 on the table of Bob and Ann. A click on "age" selects the column and sorts it
  ascending. \<^verbatim>\<open>setHeader\<close> then brings new columns, "name" stored as descending and
  "age" as ascending; "age" stays selected. The next click on "age" does not apply the
  flip of the direction of "age": the lookup answers with the column "name" renamed to
  "age", its descending is flipped, and the rows are sorted ascending once more.
\<close>

theorem reselected_column_not_flipped:
  "selectedColumnId (snd (sort_table ''age'' people_table)) = ''age'' \<and>
   map (\<lambda>column. (id_col column, sortDirection column))
       (header (snd (sort_table ''age'' people_table)))
     = [(''age'', Some Asc), (''age'', None)] \<and>
   column_values ''age'' (getTableData (snd (sort_table ''age'' people_table)))
     = [Some ''5'', Some ''30''] \<and>
   selectedColumnId reheadered_people_table = ''age'' \<and>
   map (\<lambda>column. (id_col column, sortDirection column)) (header reheadered_people_table)
     = [(''name'', Some Desc), (''age'', Some Asc)] \<and>
   fst (sort_table ''age'' reheadered_people_table) = None \<and>
   map (\<lambda>column. (id_col column, sortDirection column))
       (header (snd (sort_table ''age'' reheadered_people_table)))
     = [(''age'', Some Asc), (''age'', Some Asc)] \<and>
   column_values ''age'' (getTableData (snd (sort_table ''age'' reheadered_people_table)))
     = [Some ''5'', Some ''30'']"
  by (simp add: reheadered_people_table_def policy_defs sort_defs table_defs example_defs)

text \<open>
  Claim C4, as the code has it. When a sort of column \<open>c\<close> succeeds on a backing dataset
  in which no two rows compare as equal and on which the comparison is transitive, the
  next sort of column \<open>c\<close> succeeds too and shows the rows in exactly the reverse order.
\<close>

theorem toggle_reverses:
  assumes "fst (sort_table c s) = None"
    and "no_ties c (originalData s)"
    and "transitive_comparison c (originalData s)"
  shows "fst (sort_table c (snd (sort_table c s))) = None \<and>
         getTableData (snd (sort_table c (snd (sort_table c s))))
           = rev (getTableData (snd (sort_table c s)))"
proof -
  define d where "d = (if selectedColumnId s = c
      then getInversedSortDirection (sortDirection (hd (header s))) else Asc)"
  define s1 where "s1 = snd (sort_table c s)"
  from sort_table_success [OF assms(1), folded d_def s1_def]
  obtain out where first: "sort_internal c d (originalData s) = Inr out"
    and rendered: "\<not> isl (map_result (\<lambda>row. map_result (render_cell row) (columnIds s)) out)"
    and c: "c \<noteq> []" and mem: "c \<in> set (data_ids (tableElement s))"
    and od: "originalData s1 = out" and dd: "displayData s1 = out"
    and sel: "selectedColumnId s1 = c"
    and hdr: "header s1 = (hd (header s))\<lparr>id_col := c, sortDirection := Some d\<rparr> # tl (header s)"
    and cols: "columnIds s1 = columnIds s"
    and ids: "data_ids (tableElement s1) = data_ids (tableElement s)"
    by blast
  have second: "sort_internal c (getInversedSortDirection (Some d)) out = Inr (rev out)"
    by (rule sort_internal_toggle [OF assms(2,3) first])
  have rendered': "\<not> isl (map_result (\<lambda>row. map_result (render_cell row) (columnIds s1)) (rev out))"
    using rendered by (simp add: isl_map_result cols)
  have "fst (sort_table c s1) = None \<and> displayData (snd (sort_table c s1)) = rev out"
  proof (rule sort_table_succeeds)
    show "c \<in> set (data_ids (tableElement s1))" using mem ids by simp
    show "c \<noteq> []" by (rule c)
    show "header s1 \<noteq> []" using hdr by simp
    show "sort_internal c (if selectedColumnId s1 = c
           then getInversedSortDirection (sortDirection (hd (header s1))) else Asc)
           (originalData s1) = Inr (rev out)"
      using second by (simp add: sel hdr od)
    show "\<not> isl (map_result (\<lambda>row. map_result (render_cell row) (columnIds s1)) (rev out))"
      by (rule rendered')
  qed
  then show ?thesis
    by (simp add: getTableData_def dd flip: s1_def)
qed

theorem toggle_reverses_witness:
  "fst (sort_table ''age'' (snd (sort_table ''age'' people_table))) = None \<and>
   getTableData (snd (sort_table ''age'' (snd (sort_table ''age'' people_table))))
     = rev (getTableData (snd (sort_table ''age'' people_table)))"
proof -
  have "fst (sort_table ''age'' people_table) = None"
    by (simp add: policy_defs sort_defs table_defs example_defs)
  moreover have "no_ties ''age'' (originalData people_table)"
    by (simp add: no_ties_def policy_defs sort_defs table_defs example_defs)
  moreover have "transitive_comparison ''age'' (originalData people_table)"
    by (simp add: transitive_comparison_def policy_defs sort_defs table_defs example_defs)
  ultimately show ?thesis
    by (rule toggle_reverses)
qed

text \<open>
  Claim C4 as stated fails: "1" and "01" are different values with the same number, so
  they compare as equal. Both sorts of the column keep the two rows in their order, and
  the second order is not the reverse of the first.
\<close>

theorem toggle_fails_on_equal_numbers:
  "distinct [''1'', ''01''] \<and>
   fst (sort_table ''c'' (table_with ''c'' [''1'', ''01''])) = None \<and>
   fst (sort_table ''c'' (snd (sort_table ''c'' (table_with ''c'' [''1'', ''01''])))) = None \<and>
   column_values ''c'' (getTableData (snd (sort_table ''c'' (table_with ''c'' [''1'', ''01'']))))
     = [Some ''1'', Some ''01''] \<and>
   column_values ''c'' (getTableData
       (snd (sort_table ''c'' (snd (sort_table ''c'' (table_with ''c'' [''1'', ''01'']))))))
     = [Some ''1'', Some ''01''] \<and>
   getTableData (snd (sort_table ''c'' (snd (sort_table ''c'' (table_with ''c'' [''1'', ''01''])))))
     \<noteq> rev (getTableData (snd (sort_table ''c'' (table_with ''c'' [''1'', ''01'']))))"
proof -
  let ?T1 = "snd (sort_table ''c'' (table_with ''c'' [''1'', ''01'']))"
  let ?T2 = "snd (sort_table ''c'' ?T1)"
  have one: "column_values ''c'' (getTableData ?T1) = [Some ''1'', Some ''01'']"
    by (simp add: policy_defs sort_defs table_defs example_defs)
  have two: "column_values ''c'' (getTableData ?T2) = [Some ''1'', Some ''01'']"
    by (simp add: policy_defs sort_defs table_defs example_defs)
  have "getTableData ?T2 \<noteq> rev (getTableData ?T1)"
  proof
    assume "getTableData ?T2 = rev (getTableData ?T1)"
    then have "column_values ''c'' (getTableData ?T2) = rev (column_values ''c'' (getTableData ?T1))"
      by (simp add: column_values_def rev_map)
    with one two show False by simp
  qed
  moreover have "fst (sort_table ''c'' (table_with ''c'' [''1'', ''01''])) = None"
    by (simp add: policy_defs sort_defs table_defs example_defs)
  moreover have "fst (sort_table ''c'' ?T1) = None"
    by (simp add: policy_defs sort_defs table_defs example_defs)
  ultimately show ?thesis using one two by simp
qed

text \<open>
  Claim C6 on the table whose header was set twice. The column id "a" is not an id of
  the header, and its header cell is in the table element. \<^verbatim>\<open>sort("a")\<close> throws
  nothing: the lookup answers with the column "b" renamed to "a", and the rows are
  reordered by their cells under "a".
\<close>

theorem unregistered_column_is_sorted:
  "''a'' \<notin> set (map id_col (header two_headers_table)) \<and>
   data_ids (tableElement two_headers_table) = [''a'', ''b''] \<and>
   column_values ''a'' (getTableData two_headers_table) = [Some ''2'', Some ''1''] \<and>
   fst (sort_table ''a'' two_headers_table) = None \<and>
   column_values ''a'' (getTableData (snd (sort_table ''a'' two_headers_table)))
     = [Some ''1'', Some ''2''] \<and>
   map id_col (header (snd (sort_table ''a'' two_headers_table))) = [''a'']"
  by (simp add: policy_defs sort_defs table_defs example_defs)

section \<open>Values made of commas\<close>

text \<open>
  Claim C10, as the code has it. A non-empty value \<open>commas\<close> made of commas only
  matches the pattern, loses all its characters when the commas are removed, and is
  compared as the number 0.
  Against every value \<open>t\<close> that matches the pattern and whose number is positive, the
  ascending comparison puts \<open>commas\<close> first. In the ascending sort of a dataset on which
  the comparison is consistent, a row holding \<open>commas\<close> comes before every row holding
  \<open>t\<close>; the comparison is consistent on every column whose values all match the
  pattern.
\<close>

theorem comma_only_value_is_zero:
  assumes "commas \<noteq> []" and "set commas \<subseteq> {CHR '',''}"
    and "canCastToNumber t" and "0 < Number (removeCommas t)"
  shows "canCastToNumber commas \<and> removeCommas commas = [] \<and> Number (removeCommas commas) = 0 \<and>
         compare_values 1 commas t = - 1 \<and> compare_values 1 t commas = 1 \<and>
         (\<forall>c data out i j ci cj.
            consistent_comparison c data \<and>
            sort_internal c Asc data = Inr out \<and> i < length out \<and> j < length out \<and>
            (out ! i) c = Some ci \<and> cell_value ci = commas \<and>
            (out ! j) c = Some cj \<and> cell_value cj = t
            \<longrightarrow> i < j) \<and>
         (\<forall>c data.
            (\<forall>row \<in> set data. \<exists>cell. row c = Some cell \<and> canCastToNumber (cell_value cell))
            \<longrightarrow> consistent_comparison c data)"
proof -
  note cast = comma_only_castable [OF assms(1,2)]
  have zero: "Number (removeCommas commas) = 0"
    by (simp add: cast(2) Number_empty)
  have cmp1: "compare_values 1 commas t = - 1"
    using assms(3,4) by (simp add: compare_values_def cast(1) zero three_way_def)
  have cmp2: "compare_values 1 t commas = 1"
    using assms(3,4) by (simp add: compare_values_def cast(1) zero three_way_def)
  have order: "i < j"
    if consistent: "consistent_comparison c data"
      and sort: "sort_internal c Asc data = Inr out"
      and i: "i < length out" and j: "j < length out"
      and ci: "(out ! i) c = Some ci" "cell_value ci = commas"
      and cj: "(out ! j) c = Some cj" "cell_value cj = t"
    for c data out i j ci cj
  proof (rule ccontr)
    assume "\<not> i < j"
    then have "j < i \<or> j = i" by auto
    then show False
    proof
      assume ji: "j < i"
      from consistent_sorted [OF consistent sort] ji i
      have "not_after c (out ! j) (out ! i)"
        by (simp add: sorted_wrt_iff_nth_less)
      moreover have "comparator c 1 (out ! j) (out ! i) = Inr 1"
        by (simp add: comparator_def ci cj cmp2)
      ultimately show False by (simp add: not_after_def)
    next
      assume "j = i"
      with ci cj have "t = commas" by simp
      with zero assms(4) show False by simp
    qed
  qed
  from cast zero cmp1 cmp2 order numeric_column_consistent show ?thesis by blast
qed

theorem comma_only_value_is_zero_witness:
  "canCastToNumber '','' \<and> removeCommas '','' = [] \<and> Number (removeCommas '','') = 0 \<and>
   canCastToNumber ''5'' \<and> 0 < Number (removeCommas ''5'') \<and>
   compare_values 1 '','' ''5'' = - 1 \<and> compare_values 1 ''5'' '','' = 1 \<and>
   consistent_comparison ''c'' (single_column ''c'' [''5'', '','', ''1,0'']) \<and>
   sort_internal ''c'' Asc (single_column ''c'' [''5'', '','', ''1,0''])
     = Inr (single_column ''c'' ['','', ''5'', ''1,0''])"
proof -
  have t: "canCastToNumber ''5''" and pos: "0 < Number (removeCommas ''5'')"
    by (simp_all add: policy_defs zero_enat_def)
  have numeric: "\<forall>row \<in> set (single_column ''c'' [''5'', '','', ''1,0'']).
      \<exists>cell. row ''c'' = Some cell \<and> canCastToNumber (cell_value cell)"
    by (simp add: canCastToNumber_def example_defs)
  have "sort_internal ''c'' Asc (single_column ''c'' [''5'', '','', ''1,0''])
     = Inr (single_column ''c'' ['','', ''5'', ''1,0''])"
    by (simp add: policy_defs sort_defs example_defs)
  with comma_only_value_is_zero [of "'',''" "''5''", OF _ _ t pos] t pos numeric
  show ?thesis by (simp add: Number_empty)
qed

text \<open>
  Claim C10 as stated fails in a column that mixes in a value outside the pattern. In
  the column ",5", ",a", "0", "," the callback is not a consistent comparison, the
  ascending sort leaves the four rows where they are, and "," ends after ",5", whose
  number is 5.
\<close>

theorem comma_only_after_positive:
  "canCastToNumber '','' \<and> canCastToNumber '',5'' \<and> 0 < Number (removeCommas '',5'') \<and>
   \<not> canCastToNumber '',a'' \<and>
   fst (sort_table ''c'' (table_with ''c'' ['',5'', '',a'', ''0'', '',''])) = None \<and>
   column_values ''c''
     (getTableData (snd (sort_table ''c'' (table_with ''c'' ['',5'', '',a'', ''0'', '','']))))
     = [Some '',5'', Some '',a'', Some ''0'', Some '',''] \<and>
   sort_internal ''c'' Asc (single_column ''c'' ['',5'', '',a'', ''0'', '',''])
     = Inr (single_column ''c'' ['',5'', '',a'', ''0'', '','']) \<and>
   \<not> consistent_comparison ''c'' (single_column ''c'' ['',5'', '',a'', ''0'', '',''])"
  by (simp add: consistent_comparison_def not_after_def policy_defs sort_defs table_defs
      example_defs zero_enat_def)

end
